theory Spec2Isabelle
  imports Main "HOL-Library.Sublist"
begin

section \<open>Activity event router (packages/event-handler/src/activity.ts)\<close>

subsection \<open>Data model\<close>

text \<open>
  At run time an event mode is a JavaScript string; the TypeScript type
  \<open>EventMode = ActivityTriggerMode\<close> only restricts what the compiler accepts.
  The registry stores whatever string it is given, so the model keeps the string.
\<close>

type_synonym EventMode = string

text \<open>
  Modelled from the spec: the declaration of \<open>ActivityTriggerMode\<close> lives in the package
  \<open>@sugarch/bc-mod-types\<close>, which is not part of the source; the spec enumerates its six
  values, the same six names that \<open>modesFilters\<close> uses.
\<close>

definition EventModes :: "EventMode set" where
  "EventModes =
     {''SelfOnSelf'', ''OthersOnSelf'', ''SelfOnOthers'', ''AnyOnSelf'', ''SelfInvolved'', ''AnyInvolved''}"

text \<open>
  Modelled from the spec: \<open>Character\<close>, \<open>PlayerCharacter\<close> and \<open>ActivityInfo\<close> are declared
  outside the source. Only the fields the handler reads are kept; actor identifiers are
  opaque values compared with \<open>===\<close>.
\<close>

record Character =
  MemberNumber :: nat

record ActivityInfo =
  SourceCharacter :: nat
  TargetCharacter :: nat
  ActivityName :: string

text \<open>\<open>EventArgType = [sender, player, info]\<close>.\<close>

type_synonym EventArgType = "Character \<times> Character \<times> ActivityInfo"

text \<open>
  A listener is a JavaScript function, compared by reference in \<open>off\<close>. The model names
  each listener function by a number; two entries hold the same function exactly when
  they hold the same number.
\<close>

type_synonym listener_ref = nat

record Handler =
  mode :: EventMode
  activity :: "string option"
  listener :: listener_ref
  once :: bool

text \<open>
  The class \<open>_ActivityEvents\<close>. \<open>handlers\<close> is the private field \<open>_handlers\<close>.
  \<open>console\<close> collects the lines written by \<open>console.error\<close> (message and thrown value).
  \<open>calls\<close> is a history variable: the entries whose listener has been invoked, in order
  of invocation. No operation reads it.
\<close>

record ActivityEvents =
  handlers :: "Handler list"
  console :: "(string \<times> string) list"
  calls :: "Handler list"

text \<open>\<open>private _handlers: Handler[] = []\<close>\<close>

definition new_ActivityEvents :: ActivityEvents where
  "new_ActivityEvents = \<lparr>handlers = [], console = [], calls = []\<rparr>"

subsection \<open>The mode filters and the message handler\<close>

definition modesFilters_OthersOnSelf :: "EventMode set" where
  "modesFilters_OthersOnSelf = {''OthersOnSelf'', ''AnyOnSelf'', ''SelfInvolved'', ''AnyInvolved''}"

definition modesFilters_SelfOnSelf :: "EventMode set" where
  "modesFilters_SelfOnSelf = {''SelfOnSelf'', ''AnyOnSelf'', ''SelfInvolved'', ''AnyInvolved''}"

definition modesFilters_SelfOnOthers :: "EventMode set" where
  "modesFilters_SelfOnOthers = {''SelfOnOthers'', ''SelfInvolved'', ''AnyInvolved''}"

definition modesFilters_OthersOnOthers :: "EventMode set" where
  "modesFilters_OthersOnOthers = {''AnyInvolved''}"

text \<open>
  The immediately invoked function that computes \<open>mode\<close> in \<open>Callback\<close> (lines 39 to 45).
  \<open>Player\<close> is the host's global player object, \<open>sender\<close> the transport sender and
  \<open>info\<close> the parsed activity record.
\<close>

definition Callback_mode :: "Character \<Rightarrow> Character \<Rightarrow> ActivityInfo \<Rightarrow> EventMode set" where
  "Callback_mode Player sender info =
     (if TargetCharacter info = MemberNumber Player then
        (if MemberNumber sender = TargetCharacter info then modesFilters_SelfOnSelf
         else modesFilters_OthersOnSelf)
      else if SourceCharacter info = MemberNumber Player then modesFilters_SelfOnOthers
      else modesFilters_OthersOnOthers)"

text \<open>
  \<open>Callback\<close> of \<open>makeChatRoomMsgHandler\<close>. \<open>pulled\<close> stands for the result of the external
  \<open>ChatMessageTools.pullActivityInfo\<close>: \<open>None\<close> when it yields no activity record. The
  handler returns \<open>false\<close> on both paths.
\<close>

definition Callback ::
  "(EventMode set \<Rightarrow> string \<Rightarrow> EventArgType \<Rightarrow> 's \<Rightarrow> 's) \<Rightarrow> Character \<Rightarrow> ActivityInfo option \<Rightarrow>
     Character \<Rightarrow> 's \<Rightarrow> bool \<times> 's" where
  "Callback runner Player pulled sender s =
     (case pulled of
        None \<Rightarrow> (False, s)
      | Some info \<Rightarrow>
          (False, runner (Callback_mode Player sender info) (ActivityName info) (sender, Player, info) s))"

subsection \<open>Subscribing and unsubscribing\<close>

definition on :: "EventMode \<Rightarrow> string \<Rightarrow> listener_ref \<Rightarrow> ActivityEvents \<Rightarrow> ActivityEvents" where
  "on m a l s =
     s\<lparr>handlers := handlers s @ [\<lparr>mode = m, activity = Some a, listener = l, once = False\<rparr>]\<rparr>"

definition once' :: "EventMode \<Rightarrow> string \<Rightarrow> listener_ref \<Rightarrow> ActivityEvents \<Rightarrow> ActivityEvents" where
  "once' m a l s =
     s\<lparr>handlers := handlers s @ [\<lparr>mode = m, activity = Some a, listener = l, once = True\<rparr>]\<rparr>"

definition onAny :: "EventMode \<Rightarrow> listener_ref \<Rightarrow> ActivityEvents \<Rightarrow> ActivityEvents" where
  "onAny m l s =
     s\<lparr>handlers := handlers s @ [\<lparr>mode = m, activity = None, listener = l, once = False\<rparr>]\<rparr>"

definition onceAny :: "EventMode \<Rightarrow> listener_ref \<Rightarrow> ActivityEvents \<Rightarrow> ActivityEvents" where
  "onceAny m l s =
     s\<lparr>handlers := handlers s @ [\<lparr>mode = m, activity = None, listener = l, once = True\<rparr>]\<rparr>"

text \<open>\<open>off\<close>: the optional \<open>listener\<close> argument is \<open>None\<close> when it is left out.\<close>

definition off ::
  "EventMode \<Rightarrow> string option \<Rightarrow> listener_ref option \<Rightarrow> ActivityEvents \<Rightarrow> ActivityEvents" where
  "off m a l s =
     (case l of
        None \<Rightarrow> s\<lparr>handlers := filter (\<lambda>h. mode h \<noteq> m \<or> activity h \<noteq> a) (handlers s)\<rparr>
      | Some f \<Rightarrow>
          s\<lparr>handlers := filter (\<lambda>h. mode h \<noteq> m \<or> activity h \<noteq> a \<or> listener h \<noteq> f) (handlers s)\<rparr>)"

subsection \<open>Listeners\<close>

text \<open>
  What a listener does to the router when it is invoked: it calls the five public methods,
  and it may throw. A listener body is the sequence of these steps; a \<open>Throw\<close> ends it,
  and what it did before stays done. Listeners that also make the host deliver a message
  while they run, and so re-enter \<open>emit\<close>, come in a later subsection.
\<close>

datatype call =
    On EventMode string listener_ref
  | Once EventMode string listener_ref
  | OnAny EventMode listener_ref
  | OnceAny EventMode listener_ref
  | Off EventMode "string option" "listener_ref option"

datatype action = Call call | Throw string

fun do_call :: "call \<Rightarrow> ActivityEvents \<Rightarrow> ActivityEvents" where
  "do_call (On m a l) s = on m a l s"
| "do_call (Once m a l) s = once' m a l s"
| "do_call (OnAny m l) s = onAny m l s"
| "do_call (OnceAny m l) s = onceAny m l s"
| "do_call (Off m a l) s = off m a l s"

text \<open>Runs a listener body; the second component is the thrown value, if any.\<close>

fun run_listener :: "action list \<Rightarrow> ActivityEvents \<Rightarrow> ActivityEvents \<times> string option" where
  "run_listener [] s = (s, None)"
| "run_listener (Throw e # rest) s = (s, Some e)"
| "run_listener (Call c # rest) s = run_listener rest (do_call c s)"

text \<open>The environment: the body of each listener function, given the event arguments.\<close>

type_synonym listeners = "listener_ref \<Rightarrow> EventArgType \<Rightarrow> action list"

subsection \<open>Dispatch\<close>

text \<open>The text of the \<open>console.error\<close> line; JavaScript prints a \<open>null\<close> activity as \<open>null\<close>.\<close>

definition error_message :: "Handler \<Rightarrow> string" where
  "error_message h =
     ''Error in activity event listener for '' @
     (case activity h of None \<Rightarrow> ''null'' | Some a \<Rightarrow> a) @ '' ('' @ mode h @ ''):''"

text \<open>
  The \<open>for\<close> loop of \<open>emit\<close> over the copy \<open>cpListeners\<close>; \<open>nHandlers\<close> is the list being
  rebuilt and \<open>s\<close> the router, whose live \<open>handlers\<close> the listeners may change.
\<close>

fun emit_loop ::
  "listeners \<Rightarrow> EventMode set \<Rightarrow> string \<Rightarrow> EventArgType \<Rightarrow> Handler list \<Rightarrow> Handler list \<Rightarrow>
     ActivityEvents \<Rightarrow> Handler list \<times> ActivityEvents" where
  "emit_loop env modeFilter activityName args [] nHandlers s = (nHandlers, s)"
| "emit_loop env modeFilter activityName args (handler # cpListeners) nHandlers s =
     (if (activity handler = None \<or> Some activityName = activity handler) \<and> mode handler \<in> modeFilter
      then
        (case run_listener (env (listener handler) args) (s\<lparr>calls := calls s @ [handler]\<rparr>) of
           (s1, thrown) \<Rightarrow>
             emit_loop env modeFilter activityName args cpListeners
               (if \<not> once handler then nHandlers @ [handler] else nHandlers)
               (case thrown of
                  None \<Rightarrow> s1
                | Some e \<Rightarrow> s1\<lparr>console := console s1 @ [(error_message handler, e)]\<rparr>))
      else emit_loop env modeFilter activityName args cpListeners (nHandlers @ [handler]) s)"

definition emit ::
  "listeners \<Rightarrow> EventMode set \<Rightarrow> string \<Rightarrow> EventArgType \<Rightarrow> ActivityEvents \<Rightarrow> ActivityEvents" where
  "emit env modeFilter activityName args s =
     (case emit_loop env modeFilter activityName args (handlers s) [] s of
        (nHandlers, s1) \<Rightarrow> s1\<lparr>handlers := nHandlers\<rparr>)"

subsection \<open>Sequences of operations\<close>

text \<open>Several dispatch cycles in a row.\<close>

fun emits ::
  "listeners \<Rightarrow> (EventMode set \<times> string \<times> EventArgType) list \<Rightarrow> ActivityEvents \<Rightarrow> ActivityEvents" where
  "emits env [] s = s"
| "emits env ((modeFilter, activityName, args) # evs) s =
     emits env evs (emit env modeFilter activityName args s)"

text \<open>
  What the outside world does to a router: a call of a public method, or a dispatch
  triggered by the message handler.
\<close>

datatype operation = Api call | Dispatch "EventMode set" string EventArgType

fun perform :: "listeners \<Rightarrow> operation \<Rightarrow> ActivityEvents \<Rightarrow> ActivityEvents" where
  "perform env (Api c) s = do_call c s"
| "perform env (Dispatch modeFilter activityName args) s = emit env modeFilter activityName args s"

fun perform_all :: "listeners \<Rightarrow> operation list \<Rightarrow> ActivityEvents \<Rightarrow> ActivityEvents" where
  "perform_all env [] s = s"
| "perform_all env (p # ps) s = perform_all env ps (perform env p s)"

subsection \<open>Listeners that re-enter dispatch\<close>

text \<open>
  The constructor registers the message handler with the host (line 59), so a listener
  that makes the host process a chat message synchronously runs \<open>Callback\<close>, and through
  its runner \<open>emit\<close>, while the outer \<open>emit\<close> is still in its loop. A step of such a
  listener is a step of the kind above, or \<open>Deliver sender pulled\<close>: the host
  hands the handler a message from \<open>sender\<close> for which \<open>pullActivityInfo\<close> yields \<open>pulled\<close>.
\<close>

datatype step = Public action | Deliver Character "ActivityInfo option"

type_synonym reentrant_listeners = "listener_ref \<Rightarrow> EventArgType \<Rightarrow> step list"

text \<open>
  Runs a listener body. \<open>host\<close> is the registered message handler; it yields \<open>None\<close>
  when the nested dispatch does not return.
\<close>

fun run_steps ::
  "(Character \<Rightarrow> ActivityInfo option \<Rightarrow> ActivityEvents \<Rightarrow> ActivityEvents option) \<Rightarrow> step list \<Rightarrow>
     ActivityEvents \<Rightarrow> (ActivityEvents \<times> string option) option" where
  "run_steps host [] s = Some (s, None)"
| "run_steps host (Public (Throw e) # rest) s = Some (s, Some e)"
| "run_steps host (Public (Call c) # rest) s = run_steps host rest (do_call c s)"
| "run_steps host (Deliver sender pulled # rest) s =
     (case host sender pulled s of
        None \<Rightarrow> None
      | Some s1 \<Rightarrow> run_steps host rest s1)"

text \<open>The loop of \<open>emit\<close> again, for listeners that may re-enter.\<close>

fun emit_loop_re ::
  "(Character \<Rightarrow> ActivityInfo option \<Rightarrow> ActivityEvents \<Rightarrow> ActivityEvents option) \<Rightarrow>
     reentrant_listeners \<Rightarrow> EventMode set \<Rightarrow> string \<Rightarrow> EventArgType \<Rightarrow> Handler list \<Rightarrow> Handler list \<Rightarrow>
     ActivityEvents \<Rightarrow> (Handler list \<times> ActivityEvents) option" where
  "emit_loop_re host env modeFilter activityName args [] nHandlers s = Some (nHandlers, s)"
| "emit_loop_re host env modeFilter activityName args (handler # cpListeners) nHandlers s =
     (if (activity handler = None \<or> Some activityName = activity handler) \<and> mode handler \<in> modeFilter
      then
        (case run_steps host (env (listener handler) args) (s\<lparr>calls := calls s @ [handler]\<rparr>) of
           None \<Rightarrow> None
         | Some (s1, thrown) \<Rightarrow>
             emit_loop_re host env modeFilter activityName args cpListeners
               (if \<not> once handler then nHandlers @ [handler] else nHandlers)
               (case thrown of
                  None \<Rightarrow> s1
                | Some e \<Rightarrow> s1\<lparr>console := console s1 @ [(error_message handler, e)]\<rparr>))
      else emit_loop_re host env modeFilter activityName args cpListeners (nHandlers @ [handler]) s)"

text \<open>
  \<open>emit\<close> with a bound on the depth of nested dispatches: \<open>None\<close> when the nesting goes
  deeper than the bound. Inside the loop the host's handler is \<open>Callback\<close> with the runner
  \<open>(...args) => this.emit(...args)\<close>.
\<close>

primrec emit_re ::
  "nat \<Rightarrow> Character \<Rightarrow> reentrant_listeners \<Rightarrow> EventMode set \<Rightarrow> string \<Rightarrow> EventArgType \<Rightarrow>
     ActivityEvents \<Rightarrow> ActivityEvents option" where
  "emit_re 0 Player env modeFilter activityName args s = None"
| "emit_re (Suc depth) Player env modeFilter activityName args s =
     (case emit_loop_re
             (\<lambda>sender pulled s1.
                snd (Callback (\<lambda>m a xs r. Option.bind r (emit_re depth Player env m a xs))
                       Player pulled sender (Some s1)))
             env modeFilter activityName args (handlers s) [] s of
        None \<Rightarrow> None
      | Some (nHandlers, s1) \<Rightarrow> Some (s1\<lparr>handlers := nHandlers\<rparr>))"

text \<open>The registered message handler, called by the host from outside any dispatch.\<close>

definition deliver ::
  "nat \<Rightarrow> Character \<Rightarrow> reentrant_listeners \<Rightarrow> Character \<Rightarrow> ActivityInfo option \<Rightarrow> ActivityEvents \<Rightarrow>
     ActivityEvents option" where
  "deliver depth Player env sender pulled s =
     snd (Callback (\<lambda>m a xs r. Option.bind r (emit_re depth Player env m a xs))
            Player pulled sender (Some s))"

subsection \<open>Notions used to state the properties\<close>

text \<open>
  The matching rule in the words of the specification: the mode set has the entry's mode,
  and the entry's activity filter is null or equals the dispatched activity identifier.
\<close>

definition matches :: "EventMode set \<Rightarrow> string \<Rightarrow> Handler \<Rightarrow> bool" where
  "matches modeSet activityId entry \<longleftrightarrow>
     mode entry \<in> modeSet \<and> (activity entry = None \<or> activity entry = Some activityId)"

text \<open>The entries whose listener one dispatch cycle invokes, in order of invocation.\<close>

definition fired ::
  "listeners \<Rightarrow> EventMode set \<Rightarrow> string \<Rightarrow> EventArgType \<Rightarrow> ActivityEvents \<Rightarrow> Handler list" where
  "fired env modeFilter activityName args s =
     drop (length (calls s)) (calls (emit env modeFilter activityName args s))"

text \<open>The value a listener body throws, if it throws.\<close>

fun first_throw :: "action list \<Rightarrow> string option" where
  "first_throw [] = None"
| "first_throw (Throw e # rest) = Some e"
| "first_throw (Call c # rest) = first_throw rest"

text \<open>The console lines an entry's invocation produces: one if its listener throws.\<close>

definition report :: "listeners \<Rightarrow> EventArgType \<Rightarrow> Handler \<Rightarrow> (string \<times> string) list" where
  "report env args h =
     (case first_throw (env (listener h) args) of
        None \<Rightarrow> []
      | Some e \<Rightarrow> [(error_message h, e)])"

text \<open>The entries that a sequence of operations registers, in order of registration.\<close>

fun registered_by :: "operation \<Rightarrow> Handler list" where
  "registered_by (Api (On m a l)) = [\<lparr>mode = m, activity = Some a, listener = l, once = False\<rparr>]"
| "registered_by (Api (Once m a l)) = [\<lparr>mode = m, activity = Some a, listener = l, once = True\<rparr>]"
| "registered_by (Api (OnAny m l)) = [\<lparr>mode = m, activity = None, listener = l, once = False\<rparr>]"
| "registered_by (Api (OnceAny m l)) = [\<lparr>mode = m, activity = None, listener = l, once = True\<rparr>]"
| "registered_by (Api (Off m a l)) = []"
| "registered_by (Dispatch modeFilter activityName args) = []"

definition registered :: "operation list \<Rightarrow> Handler list" where
  "registered ps = concat (map registered_by ps)"

subsection \<open>Concrete routers and listeners\<close>

definition ex_args :: EventArgType where
  "ex_args =
     (\<lparr>MemberNumber = 7\<rparr>, \<lparr>MemberNumber = 1\<rparr>,
      \<lparr>SourceCharacter = 7, TargetCharacter = 1, ActivityName = ''Kiss''\<rparr>)"

text \<open>Listeners that do nothing.\<close>

definition quiet :: listeners where
  "quiet l args = []"

text \<open>Listener 0 unsubscribes itself and the entry of listener 1.\<close>

definition unsubscribing :: listeners where
  "unsubscribing l args =
     (if l = 0 then [Call (Off ''AnyInvolved'' None (Some 0)),
                     Call (Off ''AnyInvolved'' (Some ''Kiss'') (Some 1))]
      else [])"

text \<open>Listener 0 subscribes listener 1.\<close>

definition subscribing :: listeners where
  "subscribing l args = (if l = 0 then [Call (On ''AnyInvolved'' ''Kiss'' 1)] else [])"

text \<open>Listener 0 throws.\<close>

definition failing :: listeners where
  "failing l args = (if l = 0 then [Throw ''boom''] else [])"

definition one_listener :: ActivityEvents where
  "one_listener = onAny ''AnyInvolved'' 0 new_ActivityEvents"

definition two_listeners :: ActivityEvents where
  "two_listeners = on ''AnyInvolved'' ''Kiss'' 1 (onAny ''AnyInvolved'' 0 new_ActivityEvents)"

text \<open>
  Listener 0, when it receives the event of \<open>ex_args\<close>, makes the host deliver a second
  activity message, sent by the player to the player.
\<close>

definition reentering :: reentrant_listeners where
  "reentering l args =
     (if l = 0 \<and> args = ex_args
      then [Deliver \<lparr>MemberNumber = 1\<rparr>
              (Some \<lparr>SourceCharacter = 1, TargetCharacter = 1, ActivityName = ''Kiss''\<rparr>)]
      else [])"

definition one_shot_only :: ActivityEvents where
  "one_shot_only = once' ''AnyInvolved'' ''Kiss'' 0 new_ActivityEvents"

lemmas eval_simps =
  ex_args_def quiet_def unsubscribing_def subscribing_def failing_def
  one_listener_def two_listeners_def new_ActivityEvents_def
  on_def once'_def onAny_def onceAny_def off_def emit_def fired_def matches_def
  error_message_def report_def modesFilters_SelfOnSelf_def modesFilters_OthersOnSelf_def
  modesFilters_SelfOnOthers_def modesFilters_OthersOnOthers_def

section \<open>Properties of the dispatch loop\<close>

lemma do_call_calls: "calls (do_call c s) = calls s"
  by (cases c) (simp_all add: on_def once'_def onAny_def onceAny_def off_def split: option.splits)

lemma do_call_console: "console (do_call c s) = console s"
  by (cases c) (simp_all add: on_def once'_def onAny_def onceAny_def off_def split: option.splits)

lemma run_listener_calls: "calls (fst (run_listener body s)) = calls s"
  by (induction body s rule: run_listener.induct) (simp_all add: do_call_calls)

lemma run_listener_console: "console (fst (run_listener body s)) = console s"
  by (induction body s rule: run_listener.induct) (simp_all add: do_call_console)

lemma run_listener_thrown: "snd (run_listener body s) = first_throw body"
  by (induction body s rule: run_listener.induct) simp_all

text \<open>One iteration of the loop, with the result of the listener taken apart.\<close>

lemma emit_loop_step:
  "emit_loop env M a args (h # hs) nH s =
     (if matches M a h then
        emit_loop env M a args hs (if once h then nH else nH @ [h])
          (case first_throw (env (listener h) args) of
             None \<Rightarrow> fst (run_listener (env (listener h) args) (s\<lparr>calls := calls s @ [h]\<rparr>))
           | Some e \<Rightarrow>
               (fst (run_listener (env (listener h) args) (s\<lparr>calls := calls s @ [h]\<rparr>)))
                 \<lparr>console := console s @ [(error_message h, e)]\<rparr>)
      else emit_loop env M a args hs (nH @ [h]) s)"
proof -
  obtain s1 t where r: "run_listener (env (listener h) args) (s\<lparr>calls := calls s @ [h]\<rparr>) = (s1, t)"
    by (cases "run_listener (env (listener h) args) (s\<lparr>calls := calls s @ [h]\<rparr>)")
  have t: "t = first_throw (env (listener h) args)"
    using run_listener_thrown [of "env (listener h) args" "s\<lparr>calls := calls s @ [h]\<rparr>"] r by simp
  have c: "console s1 = console s"
    using run_listener_console [of "env (listener h) args" "s\<lparr>calls := calls s @ [h]\<rparr>"] r by simp
  have m: "matches M a h \<longleftrightarrow> (activity h = None \<or> Some a = activity h) \<and> mode h \<in> M"
    by (auto simp: matches_def)
  show ?thesis
    unfolding emit_loop.simps m [symmetric] r
    by (simp add: t [symmetric] c split: option.splits)
qed

lemma emit_loop_nHandlers:
  "fst (emit_loop env M a args hs nH s) = nH @ filter (\<lambda>h. \<not> (matches M a h \<and> once h)) hs"
proof (induction hs arbitrary: nH s)
  case Nil
  show ?case by simp
next
  case (Cons h hs)
  show ?case
    unfolding emit_loop_step by (simp add: Cons.IH)
qed

lemma emit_loop_calls:
  "calls (snd (emit_loop env M a args hs nH s)) = calls s @ filter (matches M a) hs"
proof (induction hs arbitrary: nH s)
  case Nil
  show ?case by simp
next
  case (Cons h hs)
  show ?case
    unfolding emit_loop_step
    by (simp add: Cons.IH run_listener_calls split: option.splits)
qed

lemma emit_loop_console:
  "console (snd (emit_loop env M a args hs nH s)) =
     console s @ concat (map (report env args) (filter (matches M a) hs))"
proof (induction hs arbitrary: nH s)
  case Nil
  show ?case by simp
next
  case (Cons h hs)
  show ?case
    unfolding emit_loop_step
    by (simp add: Cons.IH run_listener_console report_def split: option.splits)
qed

lemma emit_handlers:
  "handlers (emit env M a args s) = filter (\<lambda>h. \<not> (matches M a h \<and> once h)) (handlers s)"
  using emit_loop_nHandlers [of env M a args "handlers s" "[]" s]
  by (auto simp: emit_def split: prod.splits)

lemma emit_calls:
  "calls (emit env M a args s) = calls s @ filter (matches M a) (handlers s)"
  using emit_loop_calls [of env M a args "handlers s" "[]" s]
  by (auto simp: emit_def split: prod.splits)

lemma emit_console:
  "console (emit env M a args s) =
     console s @ concat (map (report env args) (filter (matches M a) (handlers s)))"
  using emit_loop_console [of env M a args "handlers s" "[]" s]
  by (auto simp: emit_def split: prod.splits)

lemma fired_eq: "fired env M a args s = filter (matches M a) (handlers s)"
  by (simp add: fired_def emit_calls)

lemma count_list_filter:
  "count_list (filter P xs) x = (if P x then count_list xs x else 0)"
  by (induction xs) auto

text \<open>
  With listeners that do not re-enter, invocations so far plus copies still registered is,
  for a one-shot entry, a quantity that no dispatch changes.
\<close>

lemma once_budget:
  "once h \<Longrightarrow>
     count_list (calls (emit env M a args s)) h + count_list (handlers (emit env M a args s)) h =
     count_list (calls s) h + count_list (handlers s) h"
  by (simp add: emit_calls emit_handlers count_list_filter)

lemma once_budget_emits:
  "once h \<Longrightarrow>
     count_list (calls (emits env evs s)) h + count_list (handlers (emits env evs s)) h =
     count_list (calls s) h + count_list (handlers s) h"
proof (induction evs arbitrary: s)
  case Nil
  show ?case by simp
next
  case (Cons ev evs)
  obtain M a args where ev: "ev = (M, a, args)" by (cases ev)
  show ?case
    using Cons.IH [OF Cons.prems, of "emit env M a args s"]
      once_budget [OF Cons.prems, of env M a args s]
    by (simp add: ev)
qed

lemma perform_subseq:
  "subseq (handlers (perform env p s)) (handlers s @ registered_by p)"
proof (cases p)
  case (Api c)
  then show ?thesis
    by (cases c) (auto simp: on_def once'_def onAny_def onceAny_def off_def split: option.splits)
next
  case (Dispatch M a args)
  then show ?thesis by (simp add: emit_handlers)
qed

lemma perform_all_subseq:
  "subseq (handlers (perform_all env ps s)) (handlers s @ registered ps)"
proof (induction ps arbitrary: s)
  case Nil
  show ?case by (simp add: registered_def)
next
  case (Cons p ps)
  have "subseq (handlers (perform_all env ps (perform env p s)))
          (handlers (perform env p s) @ registered ps)"
    by (rule Cons.IH)
  moreover have "subseq (handlers (perform env p s) @ registered ps)
          ((handlers s @ registered_by p) @ registered ps)"
    using perform_subseq [of env p s] by (metis list_emb_append_mono subseq_order.order_refl)
  ultimately show ?case
    using subseq_order.order_trans by (fastforce simp: registered_def)
qed

lemma Callback_mode_subset: "Callback_mode Player sender info \<subseteq> EventModes"
  by (simp add: Callback_mode_def EventModes_def modesFilters_SelfOnSelf_def
      modesFilters_OthersOnSelf_def modesFilters_SelfOnOthers_def modesFilters_OthersOnOthers_def)

subsection \<open>Re-entrant listeners\<close>

text \<open>Listeners that never re-enter behave as in the plain loop.\<close>

lemma run_steps_public: "run_steps host (map Public body) s = Some (run_listener body s)"
  by (induction body s rule: run_listener.induct) simp_all

lemma emit_loop_re_public:
  "emit_loop_re host (\<lambda>l xs. map Public (env l xs)) M a args hs nH s =
     Some (emit_loop env M a args hs nH s)"
  by (induction hs arbitrary: nH s) (simp_all add: run_steps_public split: prod.splits)

lemma emit_re_public:
  "emit_re (Suc depth) Player (\<lambda>l xs. map Public (env l xs)) M a args s = Some (emit env M a args s)"
  by (simp add: emit_loop_re_public emit_def split: prod.splits)

text \<open>
  Whatever the listeners do, a cycle that returns leaves the snapshot without its matched
  one-shot entries.
\<close>

lemma emit_loop_re_nHandlers:
  "emit_loop_re host env M a args hs nH s = Some (nH1, s1) \<Longrightarrow>
     nH1 = nH @ filter (\<lambda>h. \<not> (matches M a h \<and> once h)) hs"
proof (induction hs arbitrary: nH s)
  case Nil
  then show ?case by simp
next
  case (Cons h hs)
  show ?case
  proof (cases "matches M a h")
    case True
    then have m: "(activity h = None \<or> Some a = activity h) \<and> mode h \<in> M"
      by (auto simp: matches_def)
    from Cons.prems m obtain s2 where
      "emit_loop_re host env M a args hs (if \<not> once h then nH @ [h] else nH) s2 = Some (nH1, s1)"
      by (auto split: option.splits prod.splits)
    from Cons.IH [OF this] True show ?thesis by simp
  next
    case False
    then have m: "\<not> ((activity h = None \<or> Some a = activity h) \<and> mode h \<in> M)"
      by (auto simp: matches_def)
    from Cons.prems m have "emit_loop_re host env M a args hs (nH @ [h]) s = Some (nH1, s1)"
      by simp
    from Cons.IH [OF this] False show ?thesis by simp
  qed
qed

lemma emit_re_handlers:
  "emit_re depth Player env M a args s = Some s1 \<Longrightarrow>
     handlers s1 = filter (\<lambda>h. \<not> (matches M a h \<and> once h)) (handlers s)"
proof (cases depth)
  case 0
  assume "emit_re depth Player env M a args s = Some s1"
  with 0 show ?thesis by simp
next
  case (Suc d)
  assume "emit_re depth Player env M a args s = Some s1"
  with Suc obtain nH s2 where
    l: "emit_loop_re
          (\<lambda>sender pulled s1.
             snd (Callback (\<lambda>m a xs r. Option.bind r (emit_re d Player env m a xs))
                    Player pulled sender (Some s1)))
          env M a args (handlers s) [] s = Some (nH, s2)"
    and s1: "s1 = s2\<lparr>handlers := nH\<rparr>"
    by (auto split: option.splits prod.splits)
  from emit_loop_re_nHandlers [OF l] s1 show ?thesis by simp
qed

section \<open>The classifier\<close>

text \<open>
  Claim C2. For every triple (source, target, observer) of actor identifiers the classifier
  yields the mode set of the widening table: the SelfOnSelf row when source and target are
  both the observer, the OthersOnSelf row when only the target is the observer, the
  SelfOnOthers row when only the source is the observer, and \<open>{AnyInvolved}\<close> otherwise.
  A triple has one source: the transport sender and the record's \<open>SourceCharacter\<close> are
  both that source.
\<close>

theorem classifier_widening_table:
  "Callback_mode \<lparr>MemberNumber = observer\<rparr> \<lparr>MemberNumber = source\<rparr>
     \<lparr>SourceCharacter = source, TargetCharacter = target, ActivityName = name\<rparr> =
   (if source = observer \<and> target = observer
      then {''SelfOnSelf'', ''AnyOnSelf'', ''SelfInvolved'', ''AnyInvolved''}
    else if target = observer \<and> source \<noteq> observer
      then {''OthersOnSelf'', ''AnyOnSelf'', ''SelfInvolved'', ''AnyInvolved''}
    else if source = observer \<and> target \<noteq> observer
      then {''SelfOnOthers'', ''SelfInvolved'', ''AnyInvolved''}
    else {''AnyInvolved''})"
  by (simp add: Callback_mode_def modesFilters_SelfOnSelf_def modesFilters_OthersOnSelf_def
      modesFilters_SelfOnOthers_def modesFilters_OthersOnOthers_def)

theorem classifier_widening_table_witness:
  "Callback_mode \<lparr>MemberNumber = 1\<rparr> \<lparr>MemberNumber = 7\<rparr>
     \<lparr>SourceCharacter = 7, TargetCharacter = 1, ActivityName = ''Kiss''\<rparr> =
   {''OthersOnSelf'', ''AnyOnSelf'', ''SelfInvolved'', ''AnyInvolved''}"
  using classifier_widening_table [of 1 7 1 "''Kiss''"] by simp

text \<open>
  Claim C10. The classifier reads the event's source from two places. When the target is
  the observer, the transport sender's member number decides between SelfOnSelf and
  OthersOnSelf, and \<open>SourceCharacter\<close> is not consulted. When the target is not the observer,
  \<open>SourceCharacter\<close> decides between SelfOnOthers and OthersOnOthers, and the sender is not
  consulted.
\<close>

theorem classifier_two_sources:
  "(TargetCharacter info = MemberNumber Player \<longrightarrow>
      Callback_mode Player sender info =
        (if MemberNumber sender = MemberNumber Player
           then {''SelfOnSelf'', ''AnyOnSelf'', ''SelfInvolved'', ''AnyInvolved''}
         else {''OthersOnSelf'', ''AnyOnSelf'', ''SelfInvolved'', ''AnyInvolved''})) \<and>
   (TargetCharacter info \<noteq> MemberNumber Player \<longrightarrow>
      Callback_mode Player sender info =
        (if SourceCharacter info = MemberNumber Player
           then {''SelfOnOthers'', ''SelfInvolved'', ''AnyInvolved''}
         else {''AnyInvolved''}))"
  by (simp add: Callback_mode_def modesFilters_SelfOnSelf_def modesFilters_OthersOnSelf_def
      modesFilters_SelfOnOthers_def modesFilters_OthersOnOthers_def)

text \<open>
  Sender 1 and \<open>SourceCharacter\<close> 7 disagree, the observer is 1. With target 1 the sender
  wins (the SelfOnSelf row); with target 2 and the two swapped, \<open>SourceCharacter\<close> wins
  (the SelfOnOthers row).
\<close>

theorem classifier_two_sources_witness:
  "Callback_mode \<lparr>MemberNumber = 1\<rparr> \<lparr>MemberNumber = 1\<rparr>
     \<lparr>SourceCharacter = 7, TargetCharacter = 1, ActivityName = ''Kiss''\<rparr> =
     {''SelfOnSelf'', ''AnyOnSelf'', ''SelfInvolved'', ''AnyInvolved''} \<and>
   Callback_mode \<lparr>MemberNumber = 1\<rparr> \<lparr>MemberNumber = 7\<rparr>
     \<lparr>SourceCharacter = 1, TargetCharacter = 2, ActivityName = ''Kiss''\<rparr> =
     {''SelfOnOthers'', ''SelfInvolved'', ''AnyInvolved''}"
proof -
  have target_is_observer:
    "TargetCharacter \<lparr>SourceCharacter = 7, TargetCharacter = 1, ActivityName = ''Kiss''\<rparr> =
       MemberNumber \<lparr>MemberNumber = 1\<rparr>"
    by simp
  have target_is_other:
    "TargetCharacter \<lparr>SourceCharacter = 1, TargetCharacter = 2, ActivityName = ''Kiss''\<rparr> \<noteq>
       MemberNumber \<lparr>MemberNumber = 1\<rparr>"
    by simp
  show ?thesis
    using target_is_observer target_is_other
      classifier_two_sources [of "\<lparr>SourceCharacter = 7, TargetCharacter = 1, ActivityName = ''Kiss''\<rparr>"
        "\<lparr>MemberNumber = 1\<rparr>" "\<lparr>MemberNumber = 1\<rparr>"]
      classifier_two_sources [of "\<lparr>SourceCharacter = 1, TargetCharacter = 2, ActivityName = ''Kiss''\<rparr>"
        "\<lparr>MemberNumber = 1\<rparr>" "\<lparr>MemberNumber = 7\<rparr>"]
    by simp
qed

section \<open>Dispatch\<close>

text \<open>
  Claim C3. In a dispatch with mode set \<open>M\<close> and activity identifier \<open>a\<close>, the listeners
  invoked are those of the snapshot entries that match, each once and in snapshot order:
  an entry's callback is invoked if and only if \<open>M\<close> contains its mode and its activity
  filter is null or equals \<open>a\<close>. In particular an entry with a null filter whose mode is in
  \<open>M\<close> is invoked whatever \<open>a\<close> is.
\<close>

theorem listener_invoked_iff_match:
  "fired env M a args s = filter (matches M a) (handlers s) \<and>
   (\<forall>h. count_list (fired env M a args s) h =
      (if mode h \<in> M \<and> (activity h = None \<or> activity h = Some a) then count_list (handlers s) h
       else 0)) \<and>
   (\<forall>h \<in> set (handlers s).
      h \<in> set (fired env M a args s) \<longleftrightarrow> mode h \<in> M \<and> (activity h = None \<or> activity h = Some a)) \<and>
   (\<forall>h \<in> set (handlers s). activity h = None \<and> mode h \<in> M \<longrightarrow> h \<in> set (fired env M a args s))"
  by (auto simp: fired_eq count_list_filter matches_def)

theorem listener_invoked_iff_match_witness:
  "\<lparr>mode = ''AnyInvolved'', activity = None, listener = 0, once = False\<rparr> \<in> set (handlers two_listeners) \<and>
   \<lparr>mode = ''AnyInvolved'', activity = Some ''Kiss'', listener = 1, once = False\<rparr>
     \<in> set (handlers two_listeners) \<and>
   fired quiet {''AnyInvolved''} ''Slap'' ex_args two_listeners =
     [\<lparr>mode = ''AnyInvolved'', activity = None, listener = 0, once = False\<rparr>] \<and>
   \<lparr>mode = ''AnyInvolved'', activity = Some ''Kiss'', listener = 1, once = False\<rparr>
     \<notin> set (fired quiet {''AnyInvolved''} ''Slap'' ex_args two_listeners)"
  using listener_invoked_iff_match [of quiet "{''AnyInvolved''}" "''Slap''" ex_args two_listeners]
  by (simp add: two_listeners_def on_def onAny_def new_ActivityEvents_def matches_def)

text \<open>
  Claim C1 says that after a dispatch cycle the matched one-shot entries are gone and all
  other entries remain, and that a one-shot listener is therefore invoked at most one time
  over any number of matching dispatches. The first part holds for every cycle that
  returns. The second fails when a listener re-enters dispatch: \<open>emit\<close> leaves a one-shot
  entry in \<open>_handlers\<close> until the assignment after the loop, so a dispatch nested inside
  the entry's own listener takes a snapshot that still holds the entry and invokes it
  again. Here the registry holds one entry, registered with \<open>once\<close> for listener 0. The host
  delivers a \<open>Kiss\<close> from member 7 to the player; listener 0 makes the host deliver a second
  \<open>Kiss\<close> while it runs. Both dispatches return, the registry is empty afterwards, and the
  one-shot listener has been invoked twice.
\<close>

theorem once_listener_invoked_twice_on_reentry:
  "handlers one_shot_only =
     [\<lparr>mode = ''AnyInvolved'', activity = Some ''Kiss'', listener = 0, once = True\<rparr>] \<and>
   deliver (Suc (Suc 0)) \<lparr>MemberNumber = 1\<rparr> reentering \<lparr>MemberNumber = 7\<rparr>
     (Some \<lparr>SourceCharacter = 7, TargetCharacter = 1, ActivityName = ''Kiss''\<rparr>) one_shot_only =
   Some \<lparr>handlers = [], console = [],
         calls = [\<lparr>mode = ''AnyInvolved'', activity = Some ''Kiss'', listener = 0, once = True\<rparr>,
                  \<lparr>mode = ''AnyInvolved'', activity = Some ''Kiss'', listener = 0, once = True\<rparr>]\<rparr>"
  by (simp add: deliver_def Callback_def Callback_mode_def reentering_def one_shot_only_def eval_simps)

text \<open>The one-shot entry, registered once, occurs twice in the history of invocations.\<close>

theorem once_listener_invoked_twice_on_reentry_witness:
  "map_option
     (\<lambda>s. count_list (calls s)
        \<lparr>mode = ''AnyInvolved'', activity = Some ''Kiss'', listener = 0, once = True\<rparr>)
     (deliver (Suc (Suc 0)) \<lparr>MemberNumber = 1\<rparr> reentering \<lparr>MemberNumber = 7\<rparr>
        (Some \<lparr>SourceCharacter = 7, TargetCharacter = 1, ActivityName = ''Kiss''\<rparr>) one_shot_only) =
   Some 2"
  using once_listener_invoked_twice_on_reentry by simp

text \<open>
  Claim C9. A dispatch cycle keeps the order of the surviving entries: the rebuilt registry
  is the snapshot with the matched one-shot entries deleted and nothing moved. Over any
  sequence of subscribe, unsubscribe and dispatch operations the registry is therefore an
  order-preserving selection from the entries in their order of registration.
\<close>

theorem dispatch_preserves_registration_order:
  "handlers (emit env M a args s) =
     filter (\<lambda>h. \<not> (once h \<and> mode h \<in> M \<and> (activity h = None \<or> activity h = Some a))) (handlers s) \<and>
   subseq (handlers (emit env M a args s)) (handlers s) \<and>
   subseq (handlers (perform_all env ps s)) (handlers s @ registered ps)"
proof -
  have "(\<lambda>h. \<not> (matches M a h \<and> once h)) =
      (\<lambda>h. \<not> (once h \<and> mode h \<in> M \<and> (activity h = None \<or> activity h = Some a)))"
    by (auto simp: matches_def)
  then show ?thesis
    using perform_all_subseq [of env ps s] by (simp add: emit_handlers)
qed

theorem dispatch_preserves_registration_order_witness:
  "handlers (perform_all unsubscribing
      [Api (OnAny ''AnyInvolved'' 0), Api (Once ''SelfOnSelf'' ''Kiss'' 2),
       Api (On ''AnyInvolved'' ''Kiss'' 1), Dispatch modesFilters_SelfOnSelf ''Kiss'' ex_args,
       Api (Off ''AnyInvolved'' None None), Api (OnceAny ''SelfInvolved'' 3)]
      new_ActivityEvents) =
     [\<lparr>mode = ''AnyInvolved'', activity = Some ''Kiss'', listener = 1, once = False\<rparr>,
      \<lparr>mode = ''SelfInvolved'', activity = None, listener = 3, once = True\<rparr>] \<and>
   subseq
     [\<lparr>mode = ''AnyInvolved'', activity = Some ''Kiss'', listener = 1, once = False\<rparr>,
      \<lparr>mode = ''SelfInvolved'', activity = None, listener = 3, once = True\<rparr>]
     [\<lparr>mode = ''AnyInvolved'', activity = None, listener = 0, once = False\<rparr>,
      \<lparr>mode = ''SelfOnSelf'', activity = Some ''Kiss'', listener = 2, once = True\<rparr>,
      \<lparr>mode = ''AnyInvolved'', activity = Some ''Kiss'', listener = 1, once = False\<rparr>,
      \<lparr>mode = ''SelfInvolved'', activity = None, listener = 3, once = True\<rparr>]"
  using dispatch_preserves_registration_order
    [of unsubscribing modesFilters_SelfOnSelf "''Kiss''" ex_args new_ActivityEvents
      "[Api (OnAny ''AnyInvolved'' 0), Api (Once ''SelfOnSelf'' ''Kiss'' 2),
        Api (On ''AnyInvolved'' ''Kiss'' 1), Dispatch modesFilters_SelfOnSelf ''Kiss'' ex_args,
        Api (Off ''AnyInvolved'' None None), Api (OnceAny ''SelfInvolved'' 3)]"]
  by (simp add: eval_simps registered_def)

text \<open>
  Claim C4. A listener that throws is caught inside the loop: one line goes to the console,
  built from the entry's activity filter and mode, together with the thrown value. The
  cycle goes on: the listeners invoked are still all matching snapshot entries in
  registration order, the registry is rebuilt as usual, and the message handler that
  called the dispatch gets control back and returns \<open>false\<close>.
\<close>

theorem throwing_listener_isolated:
  "fired env M a args s = filter (matches M a) (handlers s) \<and>
   console (emit env M a args s) =
     console s @ concat (map (report env args) (filter (matches M a) (handlers s))) \<and>
   (\<forall>h \<in> set (handlers s). \<forall>e.
      matches M a h \<and> first_throw (env (listener h) args) = Some e \<longrightarrow>
      (''Error in activity event listener for '' @
         (case activity h of None \<Rightarrow> ''null'' | Some x \<Rightarrow> x) @ '' ('' @ mode h @ ''):'', e)
        \<in> set (console (emit env M a args s))) \<and>
   handlers (emit env M a args s) = filter (\<lambda>h. \<not> (matches M a h \<and> once h)) (handlers s) \<and>
   fst (Callback (emit env) Player pulled sender s) = False"
proof (intro conjI ballI allI impI)
  show "fired env M a args s = filter (matches M a) (handlers s)"
    by (rule fired_eq)
  show "console (emit env M a args s) =
      console s @ concat (map (report env args) (filter (matches M a) (handlers s)))"
    by (rule emit_console)
  show "handlers (emit env M a args s) = filter (\<lambda>h. \<not> (matches M a h \<and> once h)) (handlers s)"
    by (rule emit_handlers)
  show "fst (Callback (emit env) Player pulled sender s) = False"
    by (simp add: Callback_def split: option.splits)
next
  fix h e
  assume h: "h \<in> set (handlers s)"
    and t: "matches M a h \<and> first_throw (env (listener h) args) = Some e"
  from t have "report env args h = [(error_message h, e)]"
    by (simp add: report_def)
  with h t have "(error_message h, e) \<in> set (console (emit env M a args s))"
    by (force simp: emit_console)
  then show "(''Error in activity event listener for '' @
         (case activity h of None \<Rightarrow> ''null'' | Some x \<Rightarrow> x) @ '' ('' @ mode h @ ''):'', e)
        \<in> set (console (emit env M a args s))"
    by (simp add: error_message_def)
qed

text \<open>
  Listener 0 throws \<open>boom\<close>; the entry of listener 1, registered after it, is still invoked,
  both entries stay registered and the console has the line for the first entry.
\<close>

theorem throwing_listener_isolated_witness:
  "\<lparr>mode = ''AnyInvolved'', activity = None, listener = 0, once = False\<rparr> \<in> set (handlers two_listeners) \<and>
   matches {''AnyInvolved''} ''Kiss'' \<lparr>mode = ''AnyInvolved'', activity = None, listener = 0, once = False\<rparr> \<and>
   first_throw (failing 0 ex_args) = Some ''boom'' \<and>
   fired failing {''AnyInvolved''} ''Kiss'' ex_args two_listeners =
     [\<lparr>mode = ''AnyInvolved'', activity = None, listener = 0, once = False\<rparr>,
      \<lparr>mode = ''AnyInvolved'', activity = Some ''Kiss'', listener = 1, once = False\<rparr>] \<and>
   console (emit failing {''AnyInvolved''} ''Kiss'' ex_args two_listeners) =
     [(''Error in activity event listener for null (AnyInvolved):'', ''boom'')] \<and>
   handlers (emit failing {''AnyInvolved''} ''Kiss'' ex_args two_listeners) = handlers two_listeners"
  using throwing_listener_isolated
    [of failing "{''AnyInvolved''}" "''Kiss''" ex_args two_listeners]
  by (simp add: eval_simps)

text \<open>
  Claim C7. Subscribing never merges or deduplicates: registering the same mode, activity
  filter, callback and one-shot flag twice appends two entries, for each of the four
  subscribe methods, and a matching dispatch invokes both of them, after the matching
  entries registered earlier.
\<close>

theorem duplicate_subscriptions_kept:
  "handlers (on m a l (on m a l s)) =
     handlers s @ [\<lparr>mode = m, activity = Some a, listener = l, once = False\<rparr>,
                   \<lparr>mode = m, activity = Some a, listener = l, once = False\<rparr>] \<and>
   handlers (once' m a l (once' m a l s)) =
     handlers s @ [\<lparr>mode = m, activity = Some a, listener = l, once = True\<rparr>,
                   \<lparr>mode = m, activity = Some a, listener = l, once = True\<rparr>] \<and>
   handlers (onAny m l (onAny m l s)) =
     handlers s @ [\<lparr>mode = m, activity = None, listener = l, once = False\<rparr>,
                   \<lparr>mode = m, activity = None, listener = l, once = False\<rparr>] \<and>
   handlers (onceAny m l (onceAny m l s)) =
     handlers s @ [\<lparr>mode = m, activity = None, listener = l, once = True\<rparr>,
                   \<lparr>mode = m, activity = None, listener = l, once = True\<rparr>] \<and>
   (m \<in> M \<longrightarrow>
      fired env M a args (on m a l (on m a l s)) =
        fired env M a args s @ [\<lparr>mode = m, activity = Some a, listener = l, once = False\<rparr>,
                                \<lparr>mode = m, activity = Some a, listener = l, once = False\<rparr>] \<and>
      fired env M a args (once' m a l (once' m a l s)) =
        fired env M a args s @ [\<lparr>mode = m, activity = Some a, listener = l, once = True\<rparr>,
                                \<lparr>mode = m, activity = Some a, listener = l, once = True\<rparr>] \<and>
      fired env M a args (onAny m l (onAny m l s)) =
        fired env M a args s @ [\<lparr>mode = m, activity = None, listener = l, once = False\<rparr>,
                                \<lparr>mode = m, activity = None, listener = l, once = False\<rparr>] \<and>
      fired env M a args (onceAny m l (onceAny m l s)) =
        fired env M a args s @ [\<lparr>mode = m, activity = None, listener = l, once = True\<rparr>,
                                \<lparr>mode = m, activity = None, listener = l, once = True\<rparr>])"
  by (simp add: fired_eq on_def once'_def onAny_def onceAny_def matches_def)

theorem duplicate_subscriptions_kept_witness:
  "''AnyInvolved'' \<in> modesFilters_OthersOnSelf \<and>
   fired quiet modesFilters_OthersOnSelf ''Kiss'' ex_args
     (on ''AnyInvolved'' ''Kiss'' 1 (on ''AnyInvolved'' ''Kiss'' 1 one_listener)) =
     [\<lparr>mode = ''AnyInvolved'', activity = None, listener = 0, once = False\<rparr>,
      \<lparr>mode = ''AnyInvolved'', activity = Some ''Kiss'', listener = 1, once = False\<rparr>,
      \<lparr>mode = ''AnyInvolved'', activity = Some ''Kiss'', listener = 1, once = False\<rparr>]"
  using duplicate_subscriptions_kept
    [of "''AnyInvolved''" "''Kiss''" 1 one_listener modesFilters_OthersOnSelf quiet ex_args]
  by (simp add: eval_simps)

section \<open>Subscribing and unsubscribing from inside a listener\<close>

text \<open>
  Claim C5 says that an \<open>off\<close> issued from inside a listener takes effect after the cycle,
  so that the removed entry fires in no later cycle. The code loses the removal: \<open>off\<close>
  replaces the live \<open>_handlers\<close>, and the assignment at the end of \<open>emit\<close> overwrites it
  with the list rebuilt from the snapshot. Here listener 0 unsubscribes itself and the entry
  of listener 1 while it runs. In that cycle both entries fire, each once. After the cycle
  both are still registered, and the next cycle invokes both again.
\<close>

theorem off_inside_listener_is_lost:
  "fired unsubscribing {''AnyInvolved''} ''Kiss'' ex_args two_listeners =
     [\<lparr>mode = ''AnyInvolved'', activity = None, listener = 0, once = False\<rparr>,
      \<lparr>mode = ''AnyInvolved'', activity = Some ''Kiss'', listener = 1, once = False\<rparr>] \<and>
   handlers (emit unsubscribing {''AnyInvolved''} ''Kiss'' ex_args two_listeners) =
     [\<lparr>mode = ''AnyInvolved'', activity = None, listener = 0, once = False\<rparr>,
      \<lparr>mode = ''AnyInvolved'', activity = Some ''Kiss'', listener = 1, once = False\<rparr>] \<and>
   fired unsubscribing {''AnyInvolved''} ''Kiss'' ex_args
       (emit unsubscribing {''AnyInvolved''} ''Kiss'' ex_args two_listeners) =
     [\<lparr>mode = ''AnyInvolved'', activity = None, listener = 0, once = False\<rparr>,
      \<lparr>mode = ''AnyInvolved'', activity = Some ''Kiss'', listener = 1, once = False\<rparr>] \<and>
   handlers (off ''AnyInvolved'' (Some ''Kiss'') (Some 1) (off ''AnyInvolved'' None (Some 0) two_listeners)) = []"
  by (simp add: eval_simps)

text \<open>
  The entry of listener 1, unsubscribed by listener 0 during the first cycle, is invoked
  again in the second cycle.
\<close>

theorem off_inside_listener_is_lost_witness:
  "\<lparr>mode = ''AnyInvolved'', activity = Some ''Kiss'', listener = 1, once = False\<rparr>
     \<in> set (fired unsubscribing {''AnyInvolved''} ''Kiss'' ex_args
         (emit unsubscribing {''AnyInvolved''} ''Kiss'' ex_args two_listeners))"
  using off_inside_listener_is_lost by simp

text \<open>
  Claim C6 says that an entry subscribed from inside a listener is in the registry after
  the cycle and is seen by the next one. The code loses the entry: \<open>on\<close> pushes onto the
  live \<open>_handlers\<close>, and the assignment at the end of \<open>emit\<close> replaces that array by the
  list rebuilt from the snapshot. Here listener 0 subscribes listener 1 for \<open>Kiss\<close>. The new
  entry does not fire in the cycle, is not registered after it, and does not fire in the
  next cycle; the same \<open>on\<close> issued before the dispatch is kept.
\<close>

theorem on_inside_listener_is_lost:
  "fired subscribing {''AnyInvolved''} ''Kiss'' ex_args one_listener =
     [\<lparr>mode = ''AnyInvolved'', activity = None, listener = 0, once = False\<rparr>] \<and>
   handlers (emit subscribing {''AnyInvolved''} ''Kiss'' ex_args one_listener) =
     [\<lparr>mode = ''AnyInvolved'', activity = None, listener = 0, once = False\<rparr>] \<and>
   fired subscribing {''AnyInvolved''} ''Kiss'' ex_args
       (emit subscribing {''AnyInvolved''} ''Kiss'' ex_args one_listener) =
     [\<lparr>mode = ''AnyInvolved'', activity = None, listener = 0, once = False\<rparr>] \<and>
   handlers (emit quiet {''AnyInvolved''} ''Kiss'' ex_args (on ''AnyInvolved'' ''Kiss'' 1 one_listener)) =
     [\<lparr>mode = ''AnyInvolved'', activity = None, listener = 0, once = False\<rparr>,
      \<lparr>mode = ''AnyInvolved'', activity = Some ''Kiss'', listener = 1, once = False\<rparr>]"
  by (simp add: eval_simps)

text \<open>
  The entry subscribed by listener 0 during the first cycle is not in the registry
  afterwards.
\<close>

theorem on_inside_listener_is_lost_witness:
  "\<lparr>mode = ''AnyInvolved'', activity = Some ''Kiss'', listener = 1, once = False\<rparr>
     \<notin> set (handlers (emit subscribing {''AnyInvolved''} ''Kiss'' ex_args one_listener))"
  using on_inside_listener_is_lost by simp

section \<open>Modes outside the enumeration\<close>

text \<open>
  Claim C8 says that subscribing with a mode outside the six enumerated modes is rejected
  at subscribe time. At run time nothing is checked: \<open>on\<close> with the mode \<open>Bogus\<close> appends
  the entry to the registry.
\<close>

theorem invalid_mode_accepted:
  "''Bogus'' \<notin> EventModes \<and>
   handlers (on ''Bogus'' ''Kiss'' 0 new_ActivityEvents) =
     [\<lparr>mode = ''Bogus'', activity = Some ''Kiss'', listener = 0, once = False\<rparr>]"
  by (simp add: EventModes_def on_def new_ActivityEvents_def)

text \<open>
  Claim C8, amended. The four subscribe methods append the entry for every mode value;
  only the type parameter \<open>U extends EventMode\<close> restricts the mode, at compile time. An
  entry whose mode is outside the six enumerated modes stays in the registry and is never
  invoked by a dispatch whose mode set comes from the classifier.
\<close>

theorem subscribe_unchecked_mode:
  "handlers (on m a l s) =
     handlers s @ [\<lparr>mode = m, activity = Some a, listener = l, once = False\<rparr>] \<and>
   handlers (once' m a l s) =
     handlers s @ [\<lparr>mode = m, activity = Some a, listener = l, once = True\<rparr>] \<and>
   handlers (onAny m l s) =
     handlers s @ [\<lparr>mode = m, activity = None, listener = l, once = False\<rparr>] \<and>
   handlers (onceAny m l s) =
     handlers s @ [\<lparr>mode = m, activity = None, listener = l, once = True\<rparr>] \<and>
   (\<forall>h. mode h \<notin> EventModes \<longrightarrow>
      h \<notin> set (fired env (Callback_mode Player sender info) act args s) \<and>
      count_list (handlers (emit env (Callback_mode Player sender info) act args s)) h =
        count_list (handlers s) h)"
proof -
  have "\<not> matches (Callback_mode Player sender info) act h" if "mode h \<notin> EventModes" for h :: Handler
    using that Callback_mode_subset [of Player sender info] by (auto simp: matches_def)
  then show ?thesis
    by (simp add: fired_eq emit_handlers count_list_filter on_def once'_def onAny_def onceAny_def)
qed

theorem subscribe_unchecked_mode_witness:
  "mode \<lparr>mode = ''Bogus'', activity = None, listener = 4, once = True\<rparr> \<notin> EventModes \<and>
   handlers (onceAny ''Bogus'' 4 one_listener) =
     [\<lparr>mode = ''AnyInvolved'', activity = None, listener = 0, once = False\<rparr>,
      \<lparr>mode = ''Bogus'', activity = None, listener = 4, once = True\<rparr>] \<and>
   \<lparr>mode = ''Bogus'', activity = None, listener = 4, once = True\<rparr>
     \<notin> set (fired quiet
         (Callback_mode \<lparr>MemberNumber = 1\<rparr> \<lparr>MemberNumber = 7\<rparr>
            \<lparr>SourceCharacter = 7, TargetCharacter = 1, ActivityName = ''Kiss''\<rparr>)
         ''Kiss'' ex_args (onceAny ''Bogus'' 4 one_listener))"
  using subscribe_unchecked_mode
    [of "''Bogus''" "''Kiss''" 4 one_listener quiet "\<lparr>MemberNumber = 1\<rparr>" "\<lparr>MemberNumber = 7\<rparr>"
      "\<lparr>SourceCharacter = 7, TargetCharacter = 1, ActivityName = ''Kiss''\<rparr>" "''Kiss''" ex_args]
  by (simp add: eval_simps EventModes_def Callback_mode_def)

end
